theory Spec2Isabelle
  imports Main "HOL-Library.Sublist" "HOL-Library.AList"
begin

section \<open>JavaScript strings\<close>

text \<open>
  Strings are character lists. \<open>toLowerCase\<close> is modelled on ASCII: the letters A to Z
  are mapped to a to z and every other character is left alone, so the development
  speaks about ASCII headers, keywords and label names.
\<close>

definition toLowerChar :: "char \<Rightarrow> char" where
  "toLowerChar c =
     (case map_of (zip ''ABCDEFGHIJKLMNOPQRSTUVWXYZ'' ''abcdefghijklmnopqrstuvwxyz'') c of
        Some l \<Rightarrow> l
      | None \<Rightarrow> c)"

definition toLowerCase :: "string \<Rightarrow> string" where
  "toLowerCase s = map toLowerChar s"

text \<open>\<open>hay.includes(needle)\<close>: the needle occurs at some position of the haystack.\<close>

fun str_includes :: "string \<Rightarrow> string \<Rightarrow> bool" where
  "str_includes [] n = (n = [])"
| "str_includes (c # cs) n = (prefix n (c # cs) \<or> str_includes cs n)"

text \<open>\<open>s.endsWith(d)\<close>.\<close>

definition endsWith :: "string \<Rightarrow> string \<Rightarrow> bool" where
  "endsWith s d = prefix (rev d) (rev s)"

text \<open>\<open>s.lastIndexOf(c)\<close>: the index of the last occurrence, \<open>-1\<close> when there is none.\<close>

fun lastIndexOf :: "string \<Rightarrow> char \<Rightarrow> int" where
  "lastIndexOf [] c = - 1"
| "lastIndexOf (x # xs) c =
     (let r = lastIndexOf xs c
      in if 0 \<le> r then r + 1 else if x = c then 0 else - 1)"

text \<open>\<open>s.substring(i)\<close> for an index \<open>i\<close>; a negative index counts as 0.\<close>

definition substring :: "string \<Rightarrow> int \<Rightarrow> string" where
  "substring s i = drop (nat i) s"

text \<open>
  \<open>s.replace('>', '')\<close> with a string pattern removes the first occurrence only; this
  is \<^const>\<open>remove1\<close> on the character list.
\<close>

definition replaceGt :: "string \<Rightarrow> string" where
  "replaceGt s = remove1 (CHR ''>'') s"

section \<open>Messages, rules and settings\<close>

text \<open>
  A fetched message: its header list (name, value), its \<open>snippet\<close> (empty when absent)
  and \<open>textPart\<close>, the decoded data of the first \<open>text/plain\<close> part that carries data
  (\<open>None\<close> when the payload has no parts, no such part, or the decoding throws).
\<close>

record message =
  headers :: "(string \<times> string) list"
  snippet :: string
  textPart :: "string option"

text \<open>A rule \<open>{type, value, labelId, labelName}\<close>; \<open>labelId\<close> may be missing.\<close>

record rule =
  rule_type :: string
  rule_value :: string
  labelId :: "string option"
  labelName :: string

record settings =
  rules :: "rule list"
  spamKeywords :: "string list"
  spamSenderDomains :: "string list"
  autoCreateLabels :: bool
  processingInterval :: nat
  enableSpamDetection :: bool
  enablePatternDetection :: bool
  lastProcessedTimestamp :: "string option"

text \<open>
  \<open>headers.find(h => h.name.toLowerCase() === n)?.value || ''\<close>: the value of the first
  header of that lowercased name, the empty string when there is none.
\<close>

definition headerValue :: "message \<Rightarrow> string \<Rightarrow> string" where
  "headerValue m n =
     (case List.find (\<lambda>h. toLowerCase (fst h) = n) (headers m) of
        None \<Rightarrow> []
      | Some h \<Rightarrow> snd h)"

definition bodySnippet :: "message \<Rightarrow> string" where
  "bodySnippet m =
     (case textPart m of
        None \<Rightarrow> snippet m
      | Some t \<Rightarrow> snippet m @ '' '' @ t)"

section \<open>Rule matcher\<close>

definition messageMatchesRule :: "message \<Rightarrow> rule \<Rightarrow> bool" where
  "messageMatchesRule m r =
     (let subject = headerValue m ''subject'';
          sender = headerValue m ''from''
      in if rule_type r = ''sender'' then
           str_includes (toLowerCase sender) (toLowerCase (rule_value r))
         else if rule_type r = ''subject'' then
           str_includes (toLowerCase subject) (toLowerCase (rule_value r))
         else if rule_type r = ''keyword'' then
           str_includes (toLowerCase subject) (toLowerCase (rule_value r)) \<or>
           str_includes (toLowerCase (bodySnippet m)) (toLowerCase (rule_value r))
         else False)"

section \<open>Spam classifier\<close>

text \<open>The two \<open>for\<close> iterations of \<open>isSpam\<close>, each returning at its first hit.\<close>

fun spamKeywordHit :: "string \<Rightarrow> string list \<Rightarrow> bool" where
  "spamKeywordHit subject [] = False"
| "spamKeywordHit subject (k # ks) =
     (if str_includes subject (toLowerCase k) then True else spamKeywordHit subject ks)"

fun spamDomainHit :: "string \<Rightarrow> string list \<Rightarrow> bool" where
  "spamDomainHit senderDomain [] = False"
| "spamDomainHit senderDomain (d # ds) =
     (if endsWith senderDomain (toLowerCase d) then True else spamDomainHit senderDomain ds)"

definition senderDomainOf :: "message \<Rightarrow> string" where
  "senderDomainOf m =
     (let senderHeader = toLowerCase (headerValue m ''from'')
      in replaceGt (substring senderHeader (lastIndexOf senderHeader (CHR ''@'') + 1)))"

definition isSpam :: "settings \<Rightarrow> message \<Rightarrow> bool" where
  "isSpam us m =
     (if \<not> enableSpamDetection us then False
      else
        let subject = toLowerCase (headerValue m ''subject'');
            senderDomain = senderDomainOf m
        in if spamKeywordHit subject (spamKeywords us) then True
           else if spamDomainHit senderDomain (spamSenderDomains us) then True
           else if str_includes subject ''!!'' \<or> str_includes subject ''??'' then True
           else if senderDomain \<noteq> [] \<and> \<not> str_includes senderDomain ''.'' \<and>
                   senderDomain \<noteq> ''localhost'' then True
           else False)"

section \<open>Suggestions, stored state and the mail service\<close>

datatype sugg_status = pending | approved | rejected | failed_creation

text \<open>
  A suggestion \<open>{id, name, basedOnDomain, basedOnLabel, basedOnLabelId, status,
  createdLabelId}\<close>. \<open>basedOnLabel\<close> is what the label cache held for the label id, which
  may be nothing.
\<close>

record suggestion =
  sugg_id :: string
  sugg_name :: string
  basedOnDomain :: string
  basedOnLabel :: "string option"
  basedOnLabelId :: string
  status :: sugg_status
  createdLabelId :: "string option"

text \<open>
  The three ways a call of \<open>fetchGmailApi\<close> ends: it throws (authentication rejected,
  status 401, a response that is not ok, a transport error); it returns \<open>null\<close>, which it
  does when no token was available, after asking the user to sign in; or it returns the
  parsed response. A response that lacks the field its caller reads is data with that
  field empty (no labels, no messages, an empty label id); for a message, a response
  without payload or headers takes the same branch as \<open>null\<close> and is modelled by it.
\<close>

datatype 'a api = Throws | Null | Data 'a

text \<open>
  The mail service and the clock, as the program sees them. Each response may depend on
  the number of API calls made so far, so an environment describes any behaviour of the
  service over time, including one that fails at some calls and not at others.
\<close>

record gmail =
  labelsResponse :: "nat \<Rightarrow> (string \<times> string) list api"
  createResponse :: "nat \<Rightarrow> string \<Rightarrow> (string \<times> string) api"
  messageResponse :: "nat \<Rightarrow> string \<Rightarrow> message api"
  unreadResponse :: "nat \<Rightarrow> string list api"
  dateNow :: "nat \<Rightarrow> string"
  isoNow :: "nat \<Rightarrow> string"

text \<open>
  The program's state: the globals \<open>userSettings\<close> and \<open>gmailLabels\<close>, the keys of
  \<open>chrome.storage.local\<close> (\<open>domainLabelCounts\<close>, \<open>suggestedLabels\<close>, the
  \<open>messageRule_<id>\<close> entries, \<open>lastProcessedTimestamp\<close>), the keys of
  \<open>chrome.storage.sync\<close>, the label modifications requested from the mail service, and
  the number of API calls made. JavaScript objects used as dictionaries are association
  lists with distinct keys in insertion order. Storage reads and writes succeed; user
  notifications and console output are left out.
\<close>

record state =
  userSettings :: settings
  gmailLabels :: "(string \<times> string) list"
  domainLabelCounts :: "(string \<times> nat) list"
  suggestedLabels :: "suggestion list"
  messageRule :: "(string \<times> string \<times> string) list"
  localTimestamp :: "string option"
  syncUserSettings :: "settings option"
  syncTimestamp :: "string option"
  modifyRequests :: "(string \<times> string list \<times> string list) list"
  apiCalls :: nat

definition SPAM_LABEL_NAME :: string where
  "SPAM_LABEL_NAME = ''ExtensionSpam''"

definition MIN_EMAILS_FOR_PATTERN :: nat where
  "MIN_EMAILS_FOR_PATTERN = 3"

text \<open>JavaScript truthiness of a string that may be missing.\<close>

fun truthy :: "string option \<Rightarrow> bool" where
  "truthy None = False"
| "truthy (Some s) = (s \<noteq> [])"

text \<open>A value that may be \<open>undefined\<close>, inside a template literal.\<close>

fun templateString :: "string option \<Rightarrow> string" where
  "templateString None = ''undefined''"
| "templateString (Some s) = s"

section \<open>Label resolver\<close>

definition getLabels :: "gmail \<Rightarrow> state \<Rightarrow> state" where
  "getLabels g st =
     (case labelsResponse g (apiCalls st) of
        Throws \<Rightarrow> st\<lparr>apiCalls := Suc (apiCalls st)\<rparr>
      | Null \<Rightarrow> st\<lparr>gmailLabels := [], apiCalls := Suc (apiCalls st)\<rparr>
      | Data ls \<Rightarrow>
          st\<lparr>gmailLabels := fold (\<lambda>l. AList.update (fst l) (snd l)) ls [],
             apiCalls := Suc (apiCalls st)\<rparr>)"

definition createLabelIfNeeded :: "gmail \<Rightarrow> string \<Rightarrow> state \<Rightarrow> string option \<times> state" where
  "createLabelIfNeeded g name st =
     (let st1 = getLabels g st;
          existingLabelId =
            List.find
              (\<lambda>i. map_option toLowerCase (map_of (gmailLabels st1) i) =
                    Some (toLowerCase name))
              (map fst (gmailLabels st1))
      in if truthy existingLabelId then (existingLabelId, st1)
         else
           let st2 = st1\<lparr>apiCalls := Suc (apiCalls st1)\<rparr>
           in case createResponse g (apiCalls st1) name of
                Data newLabel \<Rightarrow>
                  if fst newLabel \<noteq> [] then
                    (Some (fst newLabel),
                     st2\<lparr>gmailLabels :=
                           AList.update (fst newLabel) (snd newLabel) (gmailLabels st2)\<rparr>)
                  else (None, st2)
              | Throws \<Rightarrow> (None, st2)
              | Null \<Rightarrow> (None, st2))"

definition applyLabelsToMessage ::
    "string \<Rightarrow> string list \<Rightarrow> string list \<Rightarrow> state \<Rightarrow> state" where
  "applyLabelsToMessage messageId labelIdsToAdd labelIdsToRemove st =
     (if labelIdsToAdd = [] \<and> labelIdsToRemove = [] then st
      else st\<lparr>modifyRequests :=
                 modifyRequests st @ [(messageId, labelIdsToAdd, labelIdsToRemove)],
              apiCalls := Suc (apiCalls st)\<rparr>)"

section \<open>Pattern learner\<close>

text \<open>
  \<open>senderHeader.match(/@([\w.-]+)/)\<close>: the first \<open>@\<close> followed by at least one of the
  characters \<open>A-Z a-z 0-9 _ . -\<close>, and the longest run of them after it.
\<close>

definition isDomainChar :: "char \<Rightarrow> bool" where
  "isDomainChar c \<longleftrightarrow>
     c \<in> set ''ABCDEFGHIJKLMNOPQRSTUVWXYZabcdefghijklmnopqrstuvwxyz0123456789_.-''"

fun domainMatch :: "string \<Rightarrow> string option" where
  "domainMatch [] = None"
| "domainMatch (c # cs) =
     (if c = CHR ''@'' \<and> takeWhile isDomainChar cs \<noteq> []
      then Some (takeWhile isDomainChar cs)
      else domainMatch cs)"

definition counterKey :: "string \<Rightarrow> string \<Rightarrow> string" where
  "counterKey senderDomain labelId' = senderDomain @ '':::'' @ labelId'"

definition analyzeForPatterns :: "gmail \<Rightarrow> message \<Rightarrow> string list \<Rightarrow> state \<Rightarrow> state" where
  "analyzeForPatterns g m appliedLabelIds st =
     (if appliedLabelIds = [] then st
      else
        case domainMatch (headerValue m ''from'') of
          None \<Rightarrow> st
        | Some senderDomain \<Rightarrow>
           (case List.find (\<lambda>i. map_of (gmailLabels st) i \<noteq> Some SPAM_LABEL_NAME)
                   appliedLabelIds of
              None \<Rightarrow> st
            | Some primaryAppliedLabelId \<Rightarrow>
                if primaryAppliedLabelId = [] then st
                else
                  let primaryAppliedLabelName = map_of (gmailLabels st) primaryAppliedLabelId;
                      key = counterKey senderDomain primaryAppliedLabelId;
                      count = (case map_of (domainLabelCounts st) key of
                                 None \<Rightarrow> 0
                               | Some c \<Rightarrow> c) + 1;
                      st1 = st\<lparr>domainLabelCounts :=
                                 AList.update key count (domainLabelCounts st)\<rparr>
                  in if MIN_EMAILS_FOR_PATTERN \<le> count then
                       let suggestedLabelName =
                             templateString primaryAppliedLabelName @ '' - '' @ senderDomain;
                           existingSuggestion =
                             List.find
                               (\<lambda>s. toLowerCase (sugg_name s) = toLowerCase suggestedLabelName)
                               (suggestedLabels st1);
                           labelAlreadyExists =
                             list_ex (\<lambda>n. toLowerCase n = toLowerCase suggestedLabelName)
                               (map snd (gmailLabels st1))
                       in if existingSuggestion = None \<and> \<not> labelAlreadyExists then
                            st1\<lparr>suggestedLabels := suggestedLabels st1 @
                                  [\<lparr>sugg_id = ''sugg_'' @ dateNow g (apiCalls st1),
                                    sugg_name = suggestedLabelName,
                                    basedOnDomain = senderDomain,
                                    basedOnLabel = primaryAppliedLabelName,
                                    basedOnLabelId = primaryAppliedLabelId,
                                    status = pending,
                                    createdLabelId = None\<rparr>]\<rparr>
                          else st1
                     else st1))"

section \<open>Message classifier\<close>

text \<open>
  \<open>rule.labelId || await createLabelIfNeeded(rule.labelName)\<close>: the stored label id
  when it is truthy, the label resolver otherwise.
\<close>

definition resolveTarget :: "gmail \<Rightarrow> rule \<Rightarrow> state \<Rightarrow> string option \<times> state" where
  "resolveTarget g r st =
     (if truthy (labelId r) then (labelId r, st)
      else createLabelIfNeeded g (labelName r) st)"

text \<open>
  The loop over \<open>userSettings.rules\<close> in \<open>processEmail\<close>. It returns \<open>labelsToAdd\<close>,
  \<open>appliedRule\<close> and the state. The \<open>break\<close> stands inside the test of
  \<open>targetLabelId\<close>: a matching rule whose label is not resolved does not end the loop.
\<close>

fun rulesLoop ::
    "gmail \<Rightarrow> string \<Rightarrow> message \<Rightarrow> rule list \<Rightarrow> state \<Rightarrow> string list \<times> bool \<times> state" where
  "rulesLoop g messageId m [] st = ([], False, st)"
| "rulesLoop g messageId m (r # rs) st =
     (if messageMatchesRule m r then
        let (targetLabelId, st1) = resolveTarget g r st
        in if truthy targetLabelId then
             let tid = the targetLabelId;
                 cached = map_of (gmailLabels st1) tid;
                 shown = (if truthy cached then the cached else labelName r)
             in ([tid], True,
                 st1\<lparr>messageRule := AList.update messageId (tid, shown) (messageRule st1)\<rparr>)
           else rulesLoop g messageId m rs st1
      else rulesLoop g messageId m rs st)"

definition processEmail :: "gmail \<Rightarrow> string \<Rightarrow> state \<Rightarrow> state" where
  "processEmail g messageId st =
     (case messageResponse g (apiCalls st) messageId of
        Throws \<Rightarrow> st\<lparr>apiCalls := Suc (apiCalls st)\<rparr>
      | Null \<Rightarrow> st\<lparr>apiCalls := Suc (apiCalls st)\<rparr>
      | Data fullMessage \<Rightarrow>
          let st1 = st\<lparr>apiCalls := Suc (apiCalls st)\<rparr>;
              (labelsToAdd, appliedRule, st2) =
                (if isSpam (userSettings st1) fullMessage then
                   let (spamLabelId, st') = createLabelIfNeeded g SPAM_LABEL_NAME st1
                   in (if truthy spamLabelId then [the spamLabelId] else [], False, st')
                 else rulesLoop g messageId fullMessage (rules (userSettings st1)) st1);
              st3 = (if labelsToAdd \<noteq> []
                     then applyLabelsToMessage messageId labelsToAdd [''UNREAD''] st2
                     else st2)
          in if appliedRule \<and> enablePatternDetection (userSettings st3)
             then analyzeForPatterns g fullMessage labelsToAdd st3
             else st3)"

text \<open>
  What \<open>processEmail\<close> is to do with a message flagged as spam: resolve the spam label
  and, when resolved, request it for the message; nothing else.
\<close>

definition spamOutcome :: "gmail \<Rightarrow> string \<Rightarrow> state \<Rightarrow> state" where
  "spamOutcome g messageId st =
     (let r = createLabelIfNeeded g SPAM_LABEL_NAME (st\<lparr>apiCalls := Suc (apiCalls st)\<rparr>)
      in case fst r of
           None \<Rightarrow> snd r
         | Some spamLabelId \<Rightarrow>
             applyLabelsToMessage messageId [spamLabelId] [''UNREAD''] (snd r))"

section \<open>Settings and the processing cycle\<close>

text \<open>
  \<open>saveSettings\<close> writes seven fields of \<open>userSettings\<close> to the sync storage, without
  \<open>lastProcessedTimestamp\<close>; the stored object carries \<open>None\<close> in that field.
  \<open>loadSettings\<close> spreads the stored object over the settings in memory and takes
  \<open>lastProcessedTimestamp\<close> from the sync storage when a truthy one is there.
\<close>

definition saveSettings :: "state \<Rightarrow> state" where
  "saveSettings st =
     st\<lparr>syncUserSettings := Some ((userSettings st)\<lparr>lastProcessedTimestamp := None\<rparr>)\<rparr>"

definition loadSettings :: "state \<Rightarrow> state" where
  "loadSettings st =
     (let merged =
            (case syncUserSettings st of
               None \<Rightarrow> userSettings st
             | Some loaded \<Rightarrow>
                 loaded\<lparr>lastProcessedTimestamp := lastProcessedTimestamp (userSettings st)\<rparr>)
      in st\<lparr>userSettings :=
              (if truthy (syncTimestamp st)
               then merged\<lparr>lastProcessedTimestamp := syncTimestamp st\<rparr>
               else merged)\<rparr>)"

definition recordTimestamp :: "gmail \<Rightarrow> state \<Rightarrow> state" where
  "recordTimestamp g st =
     st\<lparr>userSettings := (userSettings st)\<lparr>lastProcessedTimestamp := Some (isoNow g (apiCalls st))\<rparr>,
        localTimestamp := Some (isoNow g (apiCalls st))\<rparr>"

definition processUnreadEmails :: "gmail \<Rightarrow> state \<Rightarrow> state" where
  "processUnreadEmails g st =
     (let st1 = getLabels g (loadSettings st);
          st2 = st1\<lparr>apiCalls := Suc (apiCalls st1)\<rparr>
      in case unreadResponse g (apiCalls st1) of
           Throws \<Rightarrow> st2
         | Null \<Rightarrow> recordTimestamp g st2
         | Data messages \<Rightarrow> recordTimestamp g (fold (processEmail g) (take 10 messages) st2))"

section \<open>Suggestion handlers\<close>

datatype response =
    SuccessSuggestion suggestion
  | SuccessId string
  | FailureMessage string

text \<open>Assignment to a field of the first element that satisfies a test.\<close>

fun updateFirst :: "('a \<Rightarrow> bool) \<Rightarrow> ('a \<Rightarrow> 'a) \<Rightarrow> 'a list \<Rightarrow> 'a list" where
  "updateFirst P f [] = []"
| "updateFirst P f (x # xs) = (if P x then f x # xs else x # updateFirst P f xs)"

text \<open>
  The body shared by the \<open>approveSuggestion\<close> handler and the first notification button:
  the label is resolved, the suggestion found is marked, and a sender rule is added and
  saved when \<open>autoCreateLabels\<close> is set. It returns the marking and the state.
\<close>

definition approveFound ::
    "gmail \<Rightarrow> suggestion \<Rightarrow> state \<Rightarrow> (suggestion \<Rightarrow> suggestion) \<times> state" where
  "approveFound g sg st =
     (let (newLabelId, st1) = createLabelIfNeeded g (sugg_name sg) st
      in if truthy newLabelId then
           (\<lambda>s. s\<lparr>status := approved, createdLabelId := newLabelId\<rparr>,
            if autoCreateLabels (userSettings st1) then
              saveSettings
                (st1\<lparr>userSettings := (userSettings st1)
                       \<lparr>rules := rules (userSettings st1) @
                          [\<lparr>rule_type = ''sender'',
                            rule_value = ''@'' @ basedOnDomain sg,
                            labelId = newLabelId,
                            labelName = sugg_name sg\<rparr>]\<rparr>\<rparr>)
            else st1)
         else (\<lambda>s. s\<lparr>status := failed_creation\<rparr>, st1))"

definition approveSuggestion :: "gmail \<Rightarrow> string \<Rightarrow> state \<Rightarrow> response \<times> state" where
  "approveSuggestion g suggestionId st =
     (let stored = suggestedLabels st
      in case List.find (\<lambda>s. sugg_id s = suggestionId) stored of
           None \<Rightarrow> (FailureMessage ''Suggestion not found.'', st)
         | Some sg \<Rightarrow>
             let (mark, st1) = approveFound g sg st
             in (SuccessSuggestion (mark sg),
                 st1\<lparr>suggestedLabels :=
                       updateFirst (\<lambda>s. sugg_id s = suggestionId) mark stored\<rparr>))"

definition rejectSuggestion :: "string \<Rightarrow> state \<Rightarrow> response \<times> state" where
  "rejectSuggestion suggestionId st =
     (let stored = suggestedLabels st
      in case List.find (\<lambda>s. sugg_id s = suggestionId) stored of
           None \<Rightarrow> (FailureMessage ''Suggestion not found.'', st)
         | Some sg \<Rightarrow>
             (SuccessId suggestionId,
              st\<lparr>suggestedLabels :=
                   updateFirst (\<lambda>s. sugg_id s = suggestionId)
                     (\<lambda>s. s\<lparr>status := rejected\<rparr>) stored\<rparr>))"

text \<open>The listener for the buttons of a suggestion notification.\<close>

definition onButtonClicked :: "gmail \<Rightarrow> string \<Rightarrow> nat \<Rightarrow> state \<Rightarrow> state" where
  "onButtonClicked g notificationId buttonIndex st =
     (if prefix ''suggestion_'' notificationId then
        let suggestionId = drop (length ''suggestion_'') notificationId;
            stored = suggestedLabels st
        in case List.find (\<lambda>s. sugg_id s = suggestionId) stored of
             None \<Rightarrow> st
           | Some sg \<Rightarrow>
               let (mark, st1) =
                     (if buttonIndex = 0 then approveFound g sg st
                      else if buttonIndex = 1 then (\<lambda>s. s\<lparr>status := rejected\<rparr>, st)
                      else (\<lambda>s. s, st))
               in st1\<lparr>suggestedLabels :=
                        updateFirst (\<lambda>s. sugg_id s = suggestionId) mark stored\<rparr>
      else st)"

section \<open>Example data\<close>

text \<open>Concrete settings, messages and mail-service behaviours, used to instantiate the theorems.\<close>

definition exampleSettings :: settings where
  "exampleSettings =
     \<lparr>rules = [], spamKeywords = [''win a prize'', ''free money''], spamSenderDomains = [],
      autoCreateLabels = True, processingInterval = 5, enableSpamDetection = True,
      enablePatternDetection = True, lastProcessedTimestamp = None\<rparr>"

definition exampleState :: state where
  "exampleState =
     \<lparr>userSettings = exampleSettings, gmailLabels = [], domainLabelCounts = [],
      suggestedLabels = [], messageRule = [], localTimestamp = None,
      syncUserSettings = None, syncTimestamp = None, modifyRequests = [], apiCalls = 0\<rparr>"

definition exampleMessage :: message where
  "exampleMessage =
     \<lparr>headers = [(''From'', ''Alerts <alerts@billing.example.com>''),
                 (''Subject'', ''Your invoice'')],
      snippet = ''Invoice attached'', textPart = None\<rparr>"

definition exampleSpamMessage :: message where
  "exampleSpamMessage =
     \<lparr>headers = [(''From'', ''Alerts <alerts@billing.example.com>''),
                 (''Subject'', ''You Won!!! Claim Now'')],
      snippet = ''Invoice attached'', textPart = None\<rparr>"

definition workingGmail :: "message \<Rightarrow> gmail" where
  "workingGmail m =
     \<lparr>labelsResponse = (\<lambda>n. Data [(''Label_1'', ''Finance'')]),
      createResponse = (\<lambda>n name. Data (''Label_new'', name)),
      messageResponse = (\<lambda>n i. Data m),
      unreadResponse = (\<lambda>n. Data [''m1'']),
      dateNow = (\<lambda>n. ''1700000000000''),
      isoNow = (\<lambda>n. ''2024-01-01T00:00:00.000Z'')\<rparr>"

definition failingGmail :: "message \<Rightarrow> gmail" where
  "failingGmail m =
     \<lparr>labelsResponse = (\<lambda>n. Throws),
      createResponse = (\<lambda>n name. Throws),
      messageResponse = (\<lambda>n i. Data m),
      unreadResponse = (\<lambda>n. Throws),
      dateNow = (\<lambda>n. ''1700000000000''),
      isoNow = (\<lambda>n. ''2024-01-01T00:00:00.000Z'')\<rparr>"




definition exampleSuggestion :: "sugg_status \<Rightarrow> suggestion" where
  "exampleSuggestion s =
     \<lparr>sugg_id = ''sugg_1700000000000'', sugg_name = ''Finance - billing.example.com'',
      basedOnDomain = ''billing.example.com'', basedOnLabel = Some ''Finance'',
      basedOnLabelId = ''Label_1'', status = s, createdLabelId = None\<rparr>"




section \<open>The suggestion store over time\<close>

text \<open>
  The suggestions of a given name (up to case) that are pending or approved; the states
  the program reaches from a store without suggestions by its operations on the store
  (the pattern learner, the approve and reject handlers, the notification buttons, the
  processing of a message and of a cycle), run one after the other against any
  behaviour of the mail service; and the property that carries the proof: the stored
  names are pairwise different up to case.
\<close>

definition activeWithName :: "string \<Rightarrow> suggestion list \<Rightarrow> suggestion list" where
  "activeWithName n xs =
     filter (\<lambda>s. toLowerCase (sugg_name s) = toLowerCase n \<and>
                 (status s = pending \<or> status s = approved)) xs"

inductive reachable :: "state \<Rightarrow> bool" where
  init: "suggestedLabels st = [] \<Longrightarrow> reachable st"
| learn: "reachable st \<Longrightarrow> reachable (analyzeForPatterns g m appliedLabelIds st)"
| approve: "reachable st \<Longrightarrow> reachable (snd (approveSuggestion g suggestionId st))"
| reject: "reachable st \<Longrightarrow> reachable (snd (rejectSuggestion suggestionId st))"
| button: "reachable st \<Longrightarrow> reachable (onButtonClicked g notificationId buttonIndex st)"
| email: "reachable st \<Longrightarrow> reachable (processEmail g messageId st)"
| cycle: "reachable st \<Longrightarrow> reachable (processUnreadEmails g st)"

definition namesDistinct :: "state \<Rightarrow> bool" where
  "namesDistinct st = distinct (map (\<lambda>s. toLowerCase (sugg_name s)) (suggestedLabels st))"

section \<open>The spam classifier in the words of the specification\<close>

text \<open>
  The classifier as the specification words it, for comparison: the sender domain is the
  text after the last \<open>@\<close> with a trailing \<open>>\<close> stripped.
\<close>

definition spec_stripTrailingGt :: "string \<Rightarrow> string" where
  "spec_stripTrailingGt s = (if s \<noteq> [] \<and> last s = CHR ''>'' then butlast s else s)"

definition spec_senderDomain :: "message \<Rightarrow> string" where
  "spec_senderDomain m =
     (let senderHeader = toLowerCase (headerValue m ''from'')
      in spec_stripTrailingGt
           (substring senderHeader (lastIndexOf senderHeader (CHR ''@'') + 1)))"

definition spec_isSpam :: "settings \<Rightarrow> message \<Rightarrow> bool" where
  "spec_isSpam us m =
     (enableSpamDetection us \<and>
      ((\<exists>k \<in> set (spamKeywords us).
          sublist (toLowerCase k) (toLowerCase (headerValue m ''subject''))) \<or>
       (\<exists>d \<in> set (spamSenderDomains us). suffix (toLowerCase d) (spec_senderDomain m)) \<or>
       sublist ''!!'' (toLowerCase (headerValue m ''subject'')) \<or>
       sublist ''??'' (toLowerCase (headerValue m ''subject'')) \<or>
       (spec_senderDomain m \<noteq> [] \<and> CHR ''.'' \<notin> set (spec_senderDomain m) \<and>
        spec_senderDomain m \<noteq> ''localhost'')))"

section \<open>Facts about the string operations\<close>

lemma str_includes_sublist: "str_includes h n \<longleftrightarrow> sublist n h"
  by (induction h) (auto simp: sublist_Cons_right)

lemma str_includes_char: "str_includes h [c] \<longleftrightarrow> c \<in> set h"
  by (induction h) auto

lemma endsWith_suffix: "endsWith s d \<longleftrightarrow> suffix d s"
  by (simp add: endsWith_def suffix_to_prefix)

lemma lastIndexOf_absent: "c \<notin> set s \<Longrightarrow> lastIndexOf s c = - 1"
  by (induction s) (auto simp: Let_def)

lemma lastIndexOf_ge: "- 1 \<le> lastIndexOf s c"
  by (induction s) (auto simp: Let_def)

lemma lastIndexOf_last: "c \<notin> set t \<Longrightarrow> lastIndexOf (p @ c # t) c = int (length p)"
  by (induction p) (auto simp: Let_def lastIndexOf_absent)

lemma substring_after_last:
  "c \<notin> set t \<Longrightarrow> substring (p @ c # t) (lastIndexOf (p @ c # t) c + 1) = t"
  by (simp add: substring_def lastIndexOf_last nat_add_distrib)

lemma substring_no_at:
  "c \<notin> set s \<Longrightarrow> substring s (lastIndexOf s c + 1) = s"
  by (simp add: substring_def lastIndexOf_absent)

lemma spamKeywordHit_iff:
  "spamKeywordHit subject ks \<longleftrightarrow> (\<exists>k \<in> set ks. sublist (toLowerCase k) subject)"
  by (induction ks) (auto simp: str_includes_sublist)

lemma spamDomainHit_iff:
  "spamDomainHit sd ds \<longleftrightarrow> (\<exists>d \<in> set ds. suffix (toLowerCase d) sd)"
  by (induction ds) (auto simp: endsWith_suffix)

lemma toLowerChar_at: "toLowerChar c = CHR ''@'' \<longleftrightarrow> c = CHR ''@''"
proof
  assume h: "toLowerChar c = CHR ''@''"
  show "c = CHR ''@''"
  proof (cases "map_of (zip ''ABCDEFGHIJKLMNOPQRSTUVWXYZ'' ''abcdefghijklmnopqrstuvwxyz'') c")
    case None
    with h show ?thesis unfolding toLowerChar_def by simp
  next
    case (Some l)
    then have "(c, l) \<in> set (zip ''ABCDEFGHIJKLMNOPQRSTUVWXYZ'' ''abcdefghijklmnopqrstuvwxyz'')"
      by (rule map_of_SomeD)
    then have "l \<in> set ''abcdefghijklmnopqrstuvwxyz''"
      by (rule set_zip_rightD)
    moreover from h Some have "l = CHR ''@''" unfolding toLowerChar_def by simp
    ultimately show ?thesis by simp
  qed
next
  assume "c = CHR ''@''"
  then show "toLowerChar c = CHR ''@''" by (simp add: toLowerChar_def)
qed



lemma toLowerCase_at: "CHR ''@'' \<in> set (toLowerCase s) \<longleftrightarrow> CHR ''@'' \<in> set s"
proof
  assume "CHR ''@'' \<in> set (toLowerCase s)"
  then obtain x where x: "x \<in> set s" "CHR ''@'' = toLowerChar x"
    unfolding toLowerCase_def set_map by (rule imageE)
  from x(2) have "toLowerChar x = CHR ''@''" by (rule sym)
  then have "x = CHR ''@''" by (rule iffD1 [OF toLowerChar_at])
  with x(1) show "CHR ''@'' \<in> set s" by simp
next
  assume a: "CHR ''@'' \<in> set s"
  have "toLowerChar (CHR ''@'') = CHR ''@''" by (rule iffD2 [OF toLowerChar_at refl])
  then have "CHR ''@'' = toLowerChar (CHR ''@'')" by (rule sym)
  then show "CHR ''@'' \<in> set (toLowerCase s)"
    unfolding toLowerCase_def set_map using a by (rule image_eqI)
qed

section \<open>Rule matcher: case-insensitive containment\<close>

text \<open>
  C6. The rule matcher returns true exactly under case-insensitive substring
  containment: a \<open>sender\<close> rule matches iff the lowercased From header contains the
  lowercased condition value, a \<open>subject\<close> rule iff the lowercased Subject header
  contains it, a \<open>keyword\<close> rule iff the lowercased Subject header or the lowercased
  text snippet contains it; a rule of any other type never matches. The matcher is a
  function of the message and the rule alone.
\<close>

theorem messageMatchesRule_containment:
  "(messageMatchesRule m r \<longleftrightarrow>
      (rule_type r = ''sender'' \<and>
         sublist (toLowerCase (rule_value r)) (toLowerCase (headerValue m ''from''))) \<or>
      (rule_type r = ''subject'' \<and>
         sublist (toLowerCase (rule_value r)) (toLowerCase (headerValue m ''subject''))) \<or>
      (rule_type r = ''keyword'' \<and>
         (sublist (toLowerCase (rule_value r)) (toLowerCase (headerValue m ''subject'')) \<or>
          sublist (toLowerCase (rule_value r)) (toLowerCase (bodySnippet m))))) \<and>
   (rule_type r \<notin> {''sender'', ''subject'', ''keyword''} \<longrightarrow> \<not> messageMatchesRule m r)"
  by (auto simp: messageMatchesRule_def Let_def str_includes_sublist)

theorem messageMatchesRule_containment_witness:
  "messageMatchesRule
     \<lparr>headers = [(''From'', ''Alice <alice@Example.com>''), (''Subject'', ''Weekly Report'')],
      snippet = ''see attached'', textPart = None\<rparr>
     \<lparr>rule_type = ''sender'', rule_value = ''@EXAMPLE.com'', labelId = None, labelName = ''Work''\<rparr> \<and>
   \<not> messageMatchesRule
     \<lparr>headers = [(''From'', ''Alice <alice@Example.com>''), (''Subject'', ''Weekly Report'')],
      snippet = ''see attached'', textPart = None\<rparr>
     \<lparr>rule_type = ''regex'', rule_value = ''@EXAMPLE.com'', labelId = None, labelName = ''Work''\<rparr>"
proof -
  let ?m = "\<lparr>headers = [(''From'', ''Alice <alice@Example.com>''), (''Subject'', ''Weekly Report'')],
      snippet = ''see attached'', textPart = None\<rparr>"
  let ?r = "\<lparr>rule_type = ''sender'', rule_value = ''@EXAMPLE.com'', labelId = None, labelName = ''Work''\<rparr>"
  let ?u = "\<lparr>rule_type = ''regex'', rule_value = ''@EXAMPLE.com'', labelId = None, labelName = ''Work''\<rparr>"
  have a: "rule_type ?r = ''sender'' \<and>
     sublist (toLowerCase (rule_value ?r)) (toLowerCase (headerValue ?m ''from''))"
    by (simp add: headerValue_def toLowerCase_def toLowerChar_def
        str_includes_sublist [symmetric])
  have b: "rule_type ?u \<notin> {''sender'', ''subject'', ''keyword''}"
    by simp
  from a b messageMatchesRule_containment [of ?m ?r] messageMatchesRule_containment [of ?m ?u]
  show ?thesis by blast
qed

section \<open>Spam classifier: the heuristics\<close>

text \<open>
  C5, as the specification words it, fails on the code: the code removes the first
  \<open>>\<close> of the text after the last \<open>@\<close>, wherever it stands, not a trailing one. With
  the suspicious domain \<open>evil.com\<close> and the sender \<open>x@ev>il.com\<close> the code computes the
  domain \<open>evil.com\<close> and reports spam, while none of the four heuristics as worded holds.
\<close>

theorem isSpam_strip_counterexample:
  "isSpam
     \<lparr>rules = [], spamKeywords = [], spamSenderDomains = [''evil.com''],
      autoCreateLabels = False, processingInterval = 5, enableSpamDetection = True,
      enablePatternDetection = True, lastProcessedTimestamp = None\<rparr>
     \<lparr>headers = [(''From'', ''x@ev>il.com''), (''Subject'', ''hello'')],
      snippet = [], textPart = None\<rparr> \<and>
   \<not> spec_isSpam
     \<lparr>rules = [], spamKeywords = [], spamSenderDomains = [''evil.com''],
      autoCreateLabels = False, processingInterval = 5, enableSpamDetection = True,
      enablePatternDetection = True, lastProcessedTimestamp = None\<rparr>
     \<lparr>headers = [(''From'', ''x@ev>il.com''), (''Subject'', ''hello'')],
      snippet = [], textPart = None\<rparr>"
proof -
  let ?us = "\<lparr>rules = [], spamKeywords = [], spamSenderDomains = [''evil.com''],
      autoCreateLabels = False, processingInterval = 5, enableSpamDetection = True,
      enablePatternDetection = True, lastProcessedTimestamp = None\<rparr>"
  let ?m = "\<lparr>headers = [(''From'', ''x@ev>il.com''), (''Subject'', ''hello'')],
      snippet = [], textPart = None\<rparr>"
  have code: "isSpam ?us ?m"
    by (simp add: isSpam_def senderDomainOf_def replaceGt_def substring_def endsWith_def
        headerValue_def toLowerCase_def toLowerChar_def)
  have d: "spec_senderDomain ?m = ''ev>il.com''"
    by (simp add: spec_senderDomain_def spec_stripTrailingGt_def substring_def
        headerValue_def toLowerCase_def toLowerChar_def)
  have s: "toLowerCase (headerValue ?m ''subject'') = ''hello''"
    by (simp add: headerValue_def toLowerCase_def toLowerChar_def)
  have p: "\<not> sublist ''!!'' ''hello''" "\<not> sublist ''??'' ''hello''"
    by (simp_all add: sublist_Cons_right)
  have e: "\<not> suffix (toLowerCase ''evil.com'') ''ev>il.com''"
    by (simp add: suffix_to_prefix toLowerCase_def toLowerChar_def)
  have "\<not> spec_isSpam ?us ?m"
    unfolding spec_isSpam_def d s using p e by simp
  with code show ?thesis by simp
qed

text \<open>
  C5, amended. With spam detection disabled \<open>isSpam\<close> is false. Enabled, it is true iff
  a configured keyword occurs (case-insensitively) in the subject, or the sender domain
  ends with a configured suspicious domain (lowercased), or the subject contains \<open>!!\<close>
  or \<open>??\<close>, or the sender domain is non-empty, has no dot and is not \<open>localhost\<close>;
  where the sender domain is the lowercased From header after its last \<open>@\<close> (the whole
  header when it has none) with its first \<open>>\<close> removed.
\<close>

theorem isSpam_heuristics:
  "(isSpam us m \<longleftrightarrow>
      enableSpamDetection us \<and>
      ((\<exists>k \<in> set (spamKeywords us).
          sublist (toLowerCase k) (toLowerCase (headerValue m ''subject''))) \<or>
       (\<exists>d \<in> set (spamSenderDomains us). suffix (toLowerCase d) (senderDomainOf m)) \<or>
       sublist ''!!'' (toLowerCase (headerValue m ''subject'')) \<or>
       sublist ''??'' (toLowerCase (headerValue m ''subject'')) \<or>
       (senderDomainOf m \<noteq> [] \<and> CHR ''.'' \<notin> set (senderDomainOf m) \<and>
        senderDomainOf m \<noteq> ''localhost''))) \<and>
   (\<forall>p t. toLowerCase (headerValue m ''from'') = p @ CHR ''@'' # t \<and> CHR ''@'' \<notin> set t \<longrightarrow>
      senderDomainOf m = remove1 (CHR ''>'') t) \<and>
   (CHR ''@'' \<notin> set (toLowerCase (headerValue m ''from'')) \<longrightarrow>
      senderDomainOf m = remove1 (CHR ''>'') (toLowerCase (headerValue m ''from'')))"
proof (intro conjI allI impI)
  show "isSpam us m \<longleftrightarrow>
      enableSpamDetection us \<and>
      ((\<exists>k \<in> set (spamKeywords us).
          sublist (toLowerCase k) (toLowerCase (headerValue m ''subject''))) \<or>
       (\<exists>d \<in> set (spamSenderDomains us). suffix (toLowerCase d) (senderDomainOf m)) \<or>
       sublist ''!!'' (toLowerCase (headerValue m ''subject'')) \<or>
       sublist ''??'' (toLowerCase (headerValue m ''subject'')) \<or>
       (senderDomainOf m \<noteq> [] \<and> CHR ''.'' \<notin> set (senderDomainOf m) \<and>
        senderDomainOf m \<noteq> ''localhost''))"
    unfolding isSpam_def Let_def spamKeywordHit_iff spamDomainHit_iff str_includes_char
    unfolding str_includes_sublist
    by auto
next
  fix p t
  assume "toLowerCase (headerValue m ''from'') = p @ CHR ''@'' # t \<and> CHR ''@'' \<notin> set t"
  then show "senderDomainOf m = remove1 (CHR ''>'') t"
    by (simp add: senderDomainOf_def Let_def replaceGt_def substring_after_last)
next
  assume "CHR ''@'' \<notin> set (toLowerCase (headerValue m ''from''))"
  then show "senderDomainOf m = remove1 (CHR ''>'') (toLowerCase (headerValue m ''from''))"
    by (simp add: senderDomainOf_def Let_def replaceGt_def substring_no_at)
qed

theorem isSpam_heuristics_witness:
  "isSpam
     \<lparr>rules = [], spamKeywords = [''free money''], spamSenderDomains = [],
      autoCreateLabels = False, processingInterval = 5, enableSpamDetection = True,
      enablePatternDetection = True, lastProcessedTimestamp = None\<rparr>
     \<lparr>headers = [(''From'', ''Promo <promo@Deals.example>''),
                 (''Subject'', ''You Won!!! Claim Now'')],
      snippet = [], textPart = None\<rparr> \<and>
   senderDomainOf
     \<lparr>headers = [(''From'', ''Promo <promo@Deals.example>''),
                 (''Subject'', ''You Won!!! Claim Now'')],
      snippet = [], textPart = None\<rparr> = ''deals.example''"
proof -
  let ?us = "\<lparr>rules = [], spamKeywords = [''free money''], spamSenderDomains = [],
      autoCreateLabels = False, processingInterval = 5, enableSpamDetection = True,
      enablePatternDetection = True, lastProcessedTimestamp = None\<rparr>"
  let ?m = "\<lparr>headers = [(''From'', ''Promo <promo@Deals.example>''),
                 (''Subject'', ''You Won!!! Claim Now'')],
      snippet = [], textPart = None\<rparr>"
  have en: "enableSpamDetection ?us" by simp
  have "str_includes (toLowerCase (headerValue ?m ''subject'')) ''!!''"
    by (simp add: headerValue_def toLowerCase_def toLowerChar_def)
  then have bang: "sublist ''!!'' (toLowerCase (headerValue ?m ''subject''))"
    by (simp only: str_includes_sublist)
  have from_split: "toLowerCase (headerValue ?m ''from'') =
      ''promo <promo'' @ CHR ''@'' # ''deals.example>'' \<and> CHR ''@'' \<notin> set ''deals.example>''"
    by (simp add: headerValue_def toLowerCase_def toLowerChar_def)
  note inst = isSpam_heuristics [of ?us ?m]
  from inst en bang have spam: "isSpam ?us ?m" by blast
  from inst from_split
  have "senderDomainOf ?m = remove1 (CHR ''>'') ''deals.example>''" by blast
  then have "senderDomainOf ?m = ''deals.example''" by simp
  with spam show ?thesis by (rule conjI)
qed

section \<open>Spam classifier: a sender without an at sign\<close>

text \<open>
  C10. When the From header contains no \<open>@\<close>, the sender domain computed by \<open>isSpam\<close>
  is the whole lowercased header with its first \<open>>\<close> removed, and (spam detection being
  enabled) the message is classified as spam whenever that string is non-empty, contains
  no dot and is not \<open>localhost\<close>.
\<close>

theorem isSpam_no_at:
  assumes "CHR ''@'' \<notin> set (headerValue m ''from'')"
  shows "senderDomainOf m = remove1 (CHR ''>'') (toLowerCase (headerValue m ''from'')) \<and>
         (enableSpamDetection us \<and> senderDomainOf m \<noteq> [] \<and>
          CHR ''.'' \<notin> set (senderDomainOf m) \<and> senderDomainOf m \<noteq> ''localhost''
          \<longrightarrow> isSpam us m)"
proof -
  from assms have "CHR ''@'' \<notin> set (toLowerCase (headerValue m ''from''))"
    by (simp add: toLowerCase_at)
  then have "senderDomainOf m = remove1 (CHR ''>'') (toLowerCase (headerValue m ''from''))"
    by (simp add: senderDomainOf_def Let_def replaceGt_def substring_no_at)
  moreover have "enableSpamDetection us \<and> senderDomainOf m \<noteq> [] \<and>
          CHR ''.'' \<notin> set (senderDomainOf m) \<and> senderDomainOf m \<noteq> ''localhost''
          \<longrightarrow> isSpam us m"
    by (simp add: isSpam_def Let_def str_includes_char)
  ultimately show ?thesis by blast
qed

theorem isSpam_no_at_witness:
  "senderDomainOf
     \<lparr>headers = [(''From'', ''Mailer-Daemon>''), (''Subject'', ''hello'')],
      snippet = [], textPart = None\<rparr> = ''mailer-daemon'' \<and>
   isSpam
     \<lparr>rules = [], spamKeywords = [], spamSenderDomains = [],
      autoCreateLabels = False, processingInterval = 5, enableSpamDetection = True,
      enablePatternDetection = True, lastProcessedTimestamp = None\<rparr>
     \<lparr>headers = [(''From'', ''Mailer-Daemon>''), (''Subject'', ''hello'')],
      snippet = [], textPart = None\<rparr>"
proof -
  let ?us = "\<lparr>rules = [], spamKeywords = [], spamSenderDomains = [],
      autoCreateLabels = False, processingInterval = 5, enableSpamDetection = True,
      enablePatternDetection = True, lastProcessedTimestamp = None\<rparr>"
  let ?m = "\<lparr>headers = [(''From'', ''Mailer-Daemon>''), (''Subject'', ''hello'')],
      snippet = [], textPart = None\<rparr>"
  have no_at: "CHR ''@'' \<notin> set (headerValue ?m ''from'')"
    by (simp add: headerValue_def toLowerCase_def toLowerChar_def)
  have low: "remove1 (CHR ''>'') (toLowerCase (headerValue ?m ''from'')) = ''mailer-daemon''"
    by (simp add: headerValue_def toLowerCase_def toLowerChar_def)
  note inst = isSpam_no_at [OF no_at, of ?us]
  from inst low have d: "senderDomainOf ?m = ''mailer-daemon''" by simp
  have "enableSpamDetection ?us \<and> senderDomainOf ?m \<noteq> [] \<and>
        CHR ''.'' \<notin> set (senderDomainOf ?m) \<and> senderDomainOf ?m \<noteq> ''localhost''"
    unfolding d by simp
  with inst have "isSpam ?us ?m" by blast
  with d show ?thesis by (rule conjI)
qed

section \<open>Frame properties of the label resolver\<close>

lemmas example_defs = exampleSettings_def exampleState_def exampleMessage_def
  exampleSpamMessage_def workingGmail_def failingGmail_def

lemmas string_defs = headerValue_def toLowerCase_def toLowerChar_def


lemma isSpam_rules: "isSpam (us\<lparr>rules := rs\<rparr>) m = isSpam us m"
  by (simp add: isSpam_def)

lemma getLabels_settings:
  "getLabels g (st\<lparr>userSettings := u\<rparr>) = (getLabels g st)\<lparr>userSettings := u\<rparr>"
  by (simp add: getLabels_def split: api.splits)

lemma createLabelIfNeeded_settings:
  "createLabelIfNeeded g n (st\<lparr>userSettings := u\<rparr>) =
     (fst (createLabelIfNeeded g n st), (snd (createLabelIfNeeded g n st))\<lparr>userSettings := u\<rparr>)"
  by (simp add: createLabelIfNeeded_def getLabels_settings Let_def split: api.splits)

lemma getLabels_frame:
  "userSettings (getLabels g st) = userSettings st"
  "domainLabelCounts (getLabels g st) = domainLabelCounts st"
  "suggestedLabels (getLabels g st) = suggestedLabels st"
  "messageRule (getLabels g st) = messageRule st"
  "localTimestamp (getLabels g st) = localTimestamp st"
  "syncUserSettings (getLabels g st) = syncUserSettings st"
  "syncTimestamp (getLabels g st) = syncTimestamp st"
  "modifyRequests (getLabels g st) = modifyRequests st"
  by (simp_all add: getLabels_def split: api.splits)

lemma createLabelIfNeeded_frame:
  "userSettings (snd (createLabelIfNeeded g n st)) = userSettings st"
  "domainLabelCounts (snd (createLabelIfNeeded g n st)) = domainLabelCounts st"
  "suggestedLabels (snd (createLabelIfNeeded g n st)) = suggestedLabels st"
  "messageRule (snd (createLabelIfNeeded g n st)) = messageRule st"
  "localTimestamp (snd (createLabelIfNeeded g n st)) = localTimestamp st"
  "syncUserSettings (snd (createLabelIfNeeded g n st)) = syncUserSettings st"
  "syncTimestamp (snd (createLabelIfNeeded g n st)) = syncTimestamp st"
  "modifyRequests (snd (createLabelIfNeeded g n st)) = modifyRequests st"
  by (simp_all add: createLabelIfNeeded_def getLabels_frame Let_def split: api.splits)

lemma createLabelIfNeeded_truthy:
  "fst (createLabelIfNeeded g n st) = Some i \<Longrightarrow> i \<noteq> []"
  by (auto simp: createLabelIfNeeded_def Let_def split: api.splits if_splits)

lemma processEmail_spam:
  assumes "messageResponse g (apiCalls st) messageId = Data fullMessage"
    and "isSpam (userSettings st) fullMessage"
  shows "processEmail g messageId st = spamOutcome g messageId st"
proof (cases "fst (createLabelIfNeeded g SPAM_LABEL_NAME (st\<lparr>apiCalls := Suc (apiCalls st)\<rparr>))")
  case None
  with assms show ?thesis
    by (simp add: processEmail_def spamOutcome_def Let_def split_beta)
next
  case (Some i)
  then have "i \<noteq> []" by (rule createLabelIfNeeded_truthy)
  with Some assms show ?thesis
    by (simp add: processEmail_def spamOutcome_def Let_def split_beta)
qed

lemma spamOutcome_settings:
  "spamOutcome g messageId (st\<lparr>userSettings := u\<rparr>) = (spamOutcome g messageId st)\<lparr>userSettings := u\<rparr>"
proof -
  have sw: "st\<lparr>userSettings := u, apiCalls := Suc (apiCalls st)\<rparr> =
            st\<lparr>apiCalls := Suc (apiCalls st)\<rparr>\<lparr>userSettings := u\<rparr>"
    by simp
  show ?thesis
    by (simp add: spamOutcome_def Let_def sw createLabelIfNeeded_settings applyLabelsToMessage_def
        del: state.update_convs split: option.splits)
qed


section \<open>Spam and rule labels exclude each other\<close>

text \<open>
  C3. For a fetched message that the spam classifier flags, \<open>processEmail\<close> resolves the
  spam label only and requests at most that label for the message; it records no rule
  outcome, runs no pattern analysis, and its result does not depend on the rule list:
  no rule is evaluated, whether or not one would match.
\<close>

theorem processEmail_spam_exclusive:
  assumes "messageResponse g (apiCalls st) messageId = Data fullMessage"
    and "isSpam (userSettings st) fullMessage"
  shows "processEmail g messageId st = spamOutcome g messageId st \<and>
         modifyRequests (processEmail g messageId st) = modifyRequests st @
           (case fst (createLabelIfNeeded g SPAM_LABEL_NAME (st\<lparr>apiCalls := Suc (apiCalls st)\<rparr>)) of
              None \<Rightarrow> []
            | Some spamLabelId \<Rightarrow> [(messageId, [spamLabelId], [''UNREAD''])]) \<and>
         messageRule (processEmail g messageId st) = messageRule st \<and>
         domainLabelCounts (processEmail g messageId st) = domainLabelCounts st \<and>
         suggestedLabels (processEmail g messageId st) = suggestedLabels st \<and>
         (\<forall>rs. processEmail g messageId (st\<lparr>userSettings := (userSettings st)\<lparr>rules := rs\<rparr>\<rparr>) =
           (processEmail g messageId st)\<lparr>userSettings := (userSettings st)\<lparr>rules := rs\<rparr>\<rparr>)"
proof (intro conjI allI)
  note pe = processEmail_spam [OF assms]
  show "processEmail g messageId st = spamOutcome g messageId st" by (rule pe)
  show "modifyRequests (processEmail g messageId st) = modifyRequests st @
           (case fst (createLabelIfNeeded g SPAM_LABEL_NAME (st\<lparr>apiCalls := Suc (apiCalls st)\<rparr>)) of
              None \<Rightarrow> []
            | Some spamLabelId \<Rightarrow> [(messageId, [spamLabelId], [''UNREAD''])])"
    by (simp add: pe spamOutcome_def Let_def applyLabelsToMessage_def createLabelIfNeeded_frame
        split: option.splits)
  show "messageRule (processEmail g messageId st) = messageRule st"
    by (simp add: pe spamOutcome_def Let_def applyLabelsToMessage_def createLabelIfNeeded_frame
        split: option.splits)
  show "domainLabelCounts (processEmail g messageId st) = domainLabelCounts st"
    by (simp add: pe spamOutcome_def Let_def applyLabelsToMessage_def createLabelIfNeeded_frame
        split: option.splits)
  show "suggestedLabels (processEmail g messageId st) = suggestedLabels st"
    by (simp add: pe spamOutcome_def Let_def applyLabelsToMessage_def createLabelIfNeeded_frame
        split: option.splits)
  fix rs
  have a: "messageResponse g (apiCalls (st\<lparr>userSettings := (userSettings st)\<lparr>rules := rs\<rparr>\<rparr>)) messageId
             = Data fullMessage"
    using assms(1) by simp
  have b: "isSpam (userSettings (st\<lparr>userSettings := (userSettings st)\<lparr>rules := rs\<rparr>\<rparr>)) fullMessage"
    using assms(2) by (simp add: isSpam_rules)
  show "processEmail g messageId (st\<lparr>userSettings := (userSettings st)\<lparr>rules := rs\<rparr>\<rparr>) =
           (processEmail g messageId st)\<lparr>userSettings := (userSettings st)\<lparr>rules := rs\<rparr>\<rparr>"
    by (simp only: processEmail_spam [OF a b] pe spamOutcome_settings)
qed

theorem processEmail_spam_exclusive_witness:
  "isSpam (userSettings (exampleState\<lparr>userSettings := exampleSettings
       \<lparr>rules := [\<lparr>rule_type = ''sender'', rule_value = ''@billing.example.com'',
                   labelId = Some ''Label_1'', labelName = ''Finance''\<rparr>]\<rparr>\<rparr>)) exampleSpamMessage \<and>
   messageMatchesRule exampleSpamMessage
     \<lparr>rule_type = ''sender'', rule_value = ''@billing.example.com'',
      labelId = Some ''Label_1'', labelName = ''Finance''\<rparr> \<and>
   modifyRequests (processEmail (workingGmail exampleSpamMessage) ''m1''
     (exampleState\<lparr>userSettings := exampleSettings
       \<lparr>rules := [\<lparr>rule_type = ''sender'', rule_value = ''@billing.example.com'',
                   labelId = Some ''Label_1'', labelName = ''Finance''\<rparr>]\<rparr>\<rparr>)) =
     [(''m1'', [''Label_new''], [''UNREAD''])]"
proof -
  let ?r = "\<lparr>rule_type = ''sender'', rule_value = ''@billing.example.com'',
      labelId = Some ''Label_1'', labelName = ''Finance''\<rparr>"
  let ?st = "exampleState\<lparr>userSettings := exampleSettings\<lparr>rules := [?r]\<rparr>\<rparr>"
  let ?g = "workingGmail exampleSpamMessage"
  have a: "messageResponse ?g (apiCalls ?st) ''m1'' = Data exampleSpamMessage"
    by (simp add: example_defs)
  have b: "isSpam (userSettings ?st) exampleSpamMessage"
    by (simp add: example_defs isSpam_def string_defs)
  have c: "messageMatchesRule exampleSpamMessage ?r"
    by (simp add: example_defs messageMatchesRule_def string_defs)
  have d: "fst (createLabelIfNeeded ?g SPAM_LABEL_NAME (?st\<lparr>apiCalls := Suc (apiCalls ?st)\<rparr>))
             = Some ''Label_new''"
    by (simp add: example_defs createLabelIfNeeded_def getLabels_def SPAM_LABEL_NAME_def
        toLowerCase_def toLowerChar_def)
  from processEmail_spam_exclusive [OF a b]
  have "modifyRequests (processEmail ?g ''m1'' ?st) = modifyRequests ?st @
           (case fst (createLabelIfNeeded ?g SPAM_LABEL_NAME (?st\<lparr>apiCalls := Suc (apiCalls ?st)\<rparr>)) of
              None \<Rightarrow> []
            | Some spamLabelId \<Rightarrow> [(''m1'', [spamLabelId], [''UNREAD''])])"
    by (rule conjunct1 [OF conjunct2])
  then have "modifyRequests (processEmail ?g ''m1'' ?st) = [(''m1'', [''Label_new''], [''UNREAD''])]"
    unfolding d by (simp add: example_defs)
  with b c show ?thesis by simp
qed

section \<open>Rule order: the first matching rule whose label resolves\<close>






lemma rulesLoop_applied_iff:
  "fst (snd (rulesLoop g mid m rs st)) \<longleftrightarrow> fst (rulesLoop g mid m rs st) \<noteq> []"
  by (induction rs arbitrary: st) (simp_all add: Let_def split_beta)

declare rulesLoop.simps [simp del]




section \<open>Suggestion handlers: unknown and known ids\<close>

lemma find_updateFirst:
  "List.find P xs = Some x \<Longrightarrow> P (f x) \<Longrightarrow> List.find P (updateFirst P f xs) = Some (f x)"
  by (induction xs) (auto split: if_splits)

lemma updateFirst_none: "List.find P xs = None \<Longrightarrow> updateFirst P f xs = xs"
  by (induction xs) (auto split: if_splits)

lemma length_updateFirst: "length (updateFirst P f xs) = length xs"
  by (induction xs) auto

lemma approveFound_cases:
  "(\<exists>lid. lid \<noteq> [] \<and> fst (createLabelIfNeeded g (sugg_name sg) st) = Some lid \<and>
      fst (approveFound g sg st) = (\<lambda>s. s\<lparr>status := approved, createdLabelId := Some lid\<rparr>)) \<or>
   (fst (createLabelIfNeeded g (sugg_name sg) st) = None \<and>
      fst (approveFound g sg st) = (\<lambda>s. s\<lparr>status := failed_creation\<rparr>))"
proof (cases "fst (createLabelIfNeeded g (sugg_name sg) st)")
  case None
  then show ?thesis by (simp add: approveFound_def split_beta)
next
  case (Some lid)
  then have "lid \<noteq> []" by (rule createLabelIfNeeded_truthy)
  with Some show ?thesis by (simp add: approveFound_def split_beta)
qed

lemmas resolver_defs = createLabelIfNeeded_def getLabels_def toLowerCase_def toLowerChar_def

text \<open>
  C1, as stated, fails on the code: neither handler looks at the status of the suggestion
  it finds. Approving a rejected suggestion succeeds, marks it approved and (with
  \<open>autoCreateLabels\<close> set) adds a rule; rejecting an approved suggestion succeeds and
  marks it rejected.
\<close>

theorem approve_non_pending_counterexample:
  "fst (approveSuggestion (workingGmail exampleMessage) ''sugg_1700000000000''
          (exampleState\<lparr>suggestedLabels := [exampleSuggestion rejected]\<rparr>)) =
     SuccessSuggestion ((exampleSuggestion rejected)
        \<lparr>status := approved, createdLabelId := Some ''Label_new''\<rparr>) \<and>
   map status (suggestedLabels (snd (approveSuggestion (workingGmail exampleMessage)
          ''sugg_1700000000000''
          (exampleState\<lparr>suggestedLabels := [exampleSuggestion rejected]\<rparr>)))) = [approved] \<and>
   length (rules (userSettings (snd (approveSuggestion (workingGmail exampleMessage)
          ''sugg_1700000000000''
          (exampleState\<lparr>suggestedLabels := [exampleSuggestion rejected]\<rparr>))))) = 1 \<and>
   rules (userSettings (exampleState\<lparr>suggestedLabels := [exampleSuggestion rejected]\<rparr>)) = [] \<and>
   fst (rejectSuggestion ''sugg_1700000000000''
          (exampleState\<lparr>suggestedLabels := [exampleSuggestion approved]\<rparr>)) =
     SuccessId ''sugg_1700000000000'' \<and>
   map status (suggestedLabels (snd (rejectSuggestion ''sugg_1700000000000''
          (exampleState\<lparr>suggestedLabels := [exampleSuggestion approved]\<rparr>)))) = [rejected]"
  by (simp add: approveSuggestion_def rejectSuggestion_def approveFound_def saveSettings_def
      example_defs exampleSuggestion_def resolver_defs Let_def)

text \<open>
  C1, amended. \<open>approveSuggestion\<close> and \<open>rejectSuggestion\<close> fail exactly when no stored
  suggestion has the given id, with the answer "Suggestion not found." and the whole state
  unchanged. When a suggestion with the id is stored they succeed whatever its status:
  approve marks the first such suggestion approved with the created label id when the
  label is resolved and \<open>failed_creation\<close> when it is not, reject marks it rejected and
  changes nothing else.
\<close>

theorem approve_reject_unknown_or_found:
  "(List.find (\<lambda>s. sugg_id s = suggestionId) (suggestedLabels st) = None \<longrightarrow>
      approveSuggestion g suggestionId st = (FailureMessage ''Suggestion not found.'', st) \<and>
      rejectSuggestion suggestionId st = (FailureMessage ''Suggestion not found.'', st)) \<and>
   (\<forall>sg. List.find (\<lambda>s. sugg_id s = suggestionId) (suggestedLabels st) = Some sg \<longrightarrow>
      (\<exists>sg'. fst (approveSuggestion g suggestionId st) = SuccessSuggestion sg' \<and>
             (sg' = sg\<lparr>status := approved,
                       createdLabelId := fst (createLabelIfNeeded g (sugg_name sg) st)\<rparr> \<and>
              truthy (fst (createLabelIfNeeded g (sugg_name sg) st)) \<or>
              sg' = sg\<lparr>status := failed_creation\<rparr> \<and>
              fst (createLabelIfNeeded g (sugg_name sg) st) = None) \<and>
             List.find (\<lambda>s. sugg_id s = suggestionId)
               (suggestedLabels (snd (approveSuggestion g suggestionId st))) = Some sg') \<and>
      fst (rejectSuggestion suggestionId st) = SuccessId suggestionId \<and>
      List.find (\<lambda>s. sugg_id s = suggestionId)
        (suggestedLabels (snd (rejectSuggestion suggestionId st))) =
        Some (sg\<lparr>status := rejected\<rparr>) \<and>
      snd (rejectSuggestion suggestionId st) =
        st\<lparr>suggestedLabels := updateFirst (\<lambda>s. sugg_id s = suggestionId)
              (\<lambda>s. s\<lparr>status := rejected\<rparr>) (suggestedLabels st)\<rparr>)"
proof (intro conjI impI allI)
  assume "List.find (\<lambda>s. sugg_id s = suggestionId) (suggestedLabels st) = None"
  then show "approveSuggestion g suggestionId st = (FailureMessage ''Suggestion not found.'', st)"
    by (simp add: approveSuggestion_def)
next
  assume "List.find (\<lambda>s. sugg_id s = suggestionId) (suggestedLabels st) = None"
  then show "rejectSuggestion suggestionId st = (FailureMessage ''Suggestion not found.'', st)"
    by (simp add: rejectSuggestion_def)
next
  fix sg
  assume f: "List.find (\<lambda>s. sugg_id s = suggestionId) (suggestedLabels st) = Some sg"
  then have id: "sugg_id sg = suggestionId"
    by (auto simp: find_Some_iff)
  let ?mark = "fst (approveFound g sg st)"
  have res: "fst (approveSuggestion g suggestionId st) = SuccessSuggestion (?mark sg)"
    using f by (simp add: approveSuggestion_def split_beta)
  have sto: "suggestedLabels (snd (approveSuggestion g suggestionId st)) =
      updateFirst (\<lambda>s. sugg_id s = suggestionId) ?mark (suggestedLabels st)"
    using f by (simp add: approveSuggestion_def split_beta)
  from approveFound_cases [of g sg st]
  have mk: "(?mark sg = sg\<lparr>status := approved,
                       createdLabelId := fst (createLabelIfNeeded g (sugg_name sg) st)\<rparr> \<and>
              truthy (fst (createLabelIfNeeded g (sugg_name sg) st)) \<or>
              ?mark sg = sg\<lparr>status := failed_creation\<rparr> \<and>
              fst (createLabelIfNeeded g (sugg_name sg) st) = None)"
    by auto
  then have "sugg_id (?mark sg) = suggestionId"
    using id by auto
  with f have "List.find (\<lambda>s. sugg_id s = suggestionId)
      (updateFirst (\<lambda>s. sugg_id s = suggestionId) ?mark (suggestedLabels st)) = Some (?mark sg)"
    by (simp add: find_updateFirst)
  with res sto mk
  show "\<exists>sg'. fst (approveSuggestion g suggestionId st) = SuccessSuggestion sg' \<and>
             (sg' = sg\<lparr>status := approved,
                       createdLabelId := fst (createLabelIfNeeded g (sugg_name sg) st)\<rparr> \<and>
              truthy (fst (createLabelIfNeeded g (sugg_name sg) st)) \<or>
              sg' = sg\<lparr>status := failed_creation\<rparr> \<and>
              fst (createLabelIfNeeded g (sugg_name sg) st) = None) \<and>
             List.find (\<lambda>s. sugg_id s = suggestionId)
               (suggestedLabels (snd (approveSuggestion g suggestionId st))) = Some sg'"
    by (intro exI [of _ "?mark sg"]) simp
  show "fst (rejectSuggestion suggestionId st) = SuccessId suggestionId"
    using f by (simp add: rejectSuggestion_def)
  show "List.find (\<lambda>s. sugg_id s = suggestionId)
        (suggestedLabels (snd (rejectSuggestion suggestionId st))) =
        Some (sg\<lparr>status := rejected\<rparr>)"
    using f id by (simp add: rejectSuggestion_def find_updateFirst)
  show "snd (rejectSuggestion suggestionId st) =
        st\<lparr>suggestedLabels := updateFirst (\<lambda>s. sugg_id s = suggestionId)
              (\<lambda>s. s\<lparr>status := rejected\<rparr>) (suggestedLabels st)\<rparr>"
    using f by (simp add: rejectSuggestion_def)
qed


theorem approve_reject_unknown_or_found_witness:
  "approveSuggestion (failingGmail exampleMessage) ''sugg_42''
      (exampleState\<lparr>suggestedLabels := [exampleSuggestion pending]\<rparr>) =
     (FailureMessage ''Suggestion not found.'',
      exampleState\<lparr>suggestedLabels := [exampleSuggestion pending]\<rparr>) \<and>
   rejectSuggestion ''sugg_42'' (exampleState\<lparr>suggestedLabels := [exampleSuggestion pending]\<rparr>) =
     (FailureMessage ''Suggestion not found.'',
      exampleState\<lparr>suggestedLabels := [exampleSuggestion pending]\<rparr>) \<and>
   fst (approveSuggestion (failingGmail exampleMessage) ''sugg_1700000000000''
      (exampleState\<lparr>suggestedLabels := [exampleSuggestion pending]\<rparr>)) =
     SuccessSuggestion (exampleSuggestion failed_creation) \<and>
   List.find (\<lambda>s. sugg_id s = ''sugg_1700000000000'')
     (suggestedLabels (snd (rejectSuggestion ''sugg_1700000000000''
        (exampleState\<lparr>suggestedLabels := [exampleSuggestion pending]\<rparr>)))) =
     Some (exampleSuggestion rejected)"
proof -
  let ?st = "exampleState\<lparr>suggestedLabels := [exampleSuggestion pending]\<rparr>"
  let ?g = "failingGmail exampleMessage"
  have unknown: "List.find (\<lambda>s. sugg_id s = ''sugg_42'') (suggestedLabels ?st) = None"
    by (simp add: exampleSuggestion_def)
  have found: "List.find (\<lambda>s. sugg_id s = ''sugg_1700000000000'') (suggestedLabels ?st) =
      Some (exampleSuggestion pending)"
    by (simp add: exampleSuggestion_def)
  have fails: "fst (createLabelIfNeeded ?g (sugg_name (exampleSuggestion pending)) ?st) = None"
    by (simp add: example_defs exampleSuggestion_def createLabelIfNeeded_def getLabels_def)
  have upd: "(exampleSuggestion pending)\<lparr>status := failed_creation\<rparr> = exampleSuggestion failed_creation"
    "(exampleSuggestion pending)\<lparr>status := rejected\<rparr> = exampleSuggestion rejected"
    by (simp_all add: exampleSuggestion_def)
  from approve_reject_unknown_or_found [of "''sugg_42''" ?st ?g] unknown
  have a: "approveSuggestion ?g ''sugg_42'' ?st = (FailureMessage ''Suggestion not found.'', ?st) \<and>
           rejectSuggestion ''sugg_42'' ?st = (FailureMessage ''Suggestion not found.'', ?st)"
    by blast
  from approve_reject_unknown_or_found [of "''sugg_1700000000000''" ?st ?g] found
  have b: "(\<exists>sg'. fst (approveSuggestion ?g ''sugg_1700000000000'' ?st) = SuccessSuggestion sg' \<and>
             (sg' = (exampleSuggestion pending)\<lparr>status := approved,
                       createdLabelId := fst (createLabelIfNeeded ?g (sugg_name (exampleSuggestion pending)) ?st)\<rparr> \<and>
              truthy (fst (createLabelIfNeeded ?g (sugg_name (exampleSuggestion pending)) ?st)) \<or>
              sg' = (exampleSuggestion pending)\<lparr>status := failed_creation\<rparr> \<and>
              fst (createLabelIfNeeded ?g (sugg_name (exampleSuggestion pending)) ?st) = None) \<and>
             List.find (\<lambda>s. sugg_id s = ''sugg_1700000000000'')
               (suggestedLabels (snd (approveSuggestion ?g ''sugg_1700000000000'' ?st))) = Some sg') \<and>
      List.find (\<lambda>s. sugg_id s = ''sugg_1700000000000'')
        (suggestedLabels (snd (rejectSuggestion ''sugg_1700000000000'' ?st))) =
        Some ((exampleSuggestion pending)\<lparr>status := rejected\<rparr>)"
    by blast
  from b have c: "fst (approveSuggestion ?g ''sugg_1700000000000'' ?st) =
      SuccessSuggestion (exampleSuggestion failed_creation)"
    unfolding fails upd by auto
  from b have d: "List.find (\<lambda>s. sugg_id s = ''sugg_1700000000000'')
        (suggestedLabels (snd (rejectSuggestion ''sugg_1700000000000'' ?st))) =
        Some (exampleSuggestion rejected)"
    unfolding upd by blast
  from a c d show ?thesis by blast
qed

section \<open>Approving a suggestion adds a sender rule\<close>

lemma approveFound_success:
  assumes "fst (createLabelIfNeeded g (sugg_name sg) st) = Some lid"
    and "autoCreateLabels (userSettings st)"
  shows "fst (approveFound g sg st) = (\<lambda>s. s\<lparr>status := approved, createdLabelId := Some lid\<rparr>)"
    and "rules (userSettings (snd (approveFound g sg st))) = rules (userSettings st) @
           [\<lparr>rule_type = ''sender'', rule_value = ''@'' @ basedOnDomain sg,
             labelId = Some lid, labelName = sugg_name sg\<rparr>]"
    and "syncUserSettings (snd (approveFound g sg st)) =
           Some ((userSettings (snd (approveFound g sg st)))\<lparr>lastProcessedTimestamp := None\<rparr>)"
proof -
  from assms(1) have t: "lid \<noteq> []" by (rule createLabelIfNeeded_truthy)
  from assms(2) have au: "autoCreateLabels (userSettings (snd (createLabelIfNeeded g (sugg_name sg) st)))"
    by (simp add: createLabelIfNeeded_frame)
  show "fst (approveFound g sg st) = (\<lambda>s. s\<lparr>status := approved, createdLabelId := Some lid\<rparr>)"
    using assms(1) t by (simp add: approveFound_def split_beta)
  show "rules (userSettings (snd (approveFound g sg st))) = rules (userSettings st) @
           [\<lparr>rule_type = ''sender'', rule_value = ''@'' @ basedOnDomain sg,
             labelId = Some lid, labelName = sugg_name sg\<rparr>]"
    using assms(1) t au
    by (simp add: approveFound_def split_beta saveSettings_def createLabelIfNeeded_frame)
  show "syncUserSettings (snd (approveFound g sg st)) =
           Some ((userSettings (snd (approveFound g sg st)))\<lparr>lastProcessedTimestamp := None\<rparr>)"
    using assms(1) t au
    by (simp add: approveFound_def split_beta saveSettings_def)
qed

text \<open>
  C7. When the approved suggestion is found, its label is resolved and
  \<open>autoCreateLabels\<close> is set, the handler answers with the suggestion marked approved and
  carrying the created label id, stores it so, appends exactly one rule to the rule list,
  of type \<open>sender\<close>, with value \<open>@\<close> followed by the suggestion's domain, bound to the
  created label id and the suggestion's name, and the rule list saved to the sync storage
  is the new rule list.
\<close>

theorem approve_appends_sender_rule:
  assumes "List.find (\<lambda>s. sugg_id s = suggestionId) (suggestedLabels st) = Some sg"
    and "fst (createLabelIfNeeded g (sugg_name sg) st) = Some lid"
    and "autoCreateLabels (userSettings st)"
  shows "fst (approveSuggestion g suggestionId st) =
           SuccessSuggestion (sg\<lparr>status := approved, createdLabelId := Some lid\<rparr>) \<and>
         List.find (\<lambda>s. sugg_id s = suggestionId)
           (suggestedLabels (snd (approveSuggestion g suggestionId st))) =
           Some (sg\<lparr>status := approved, createdLabelId := Some lid\<rparr>) \<and>
         rules (userSettings (snd (approveSuggestion g suggestionId st))) =
           rules (userSettings st) @
           [\<lparr>rule_type = ''sender'', rule_value = ''@'' @ basedOnDomain sg,
             labelId = Some lid, labelName = sugg_name sg\<rparr>] \<and>
         map_option rules (syncUserSettings (snd (approveSuggestion g suggestionId st))) =
           Some (rules (userSettings (snd (approveSuggestion g suggestionId st))))"
proof -
  note ok = approveFound_success [OF assms(2,3)]
  from assms(1) have id: "sugg_id sg = suggestionId" by (auto simp: find_Some_iff)
  have r: "fst (approveSuggestion g suggestionId st) =
           SuccessSuggestion (sg\<lparr>status := approved, createdLabelId := Some lid\<rparr>)"
    using assms(1) by (simp add: approveSuggestion_def split_beta ok(1))
  have s: "suggestedLabels (snd (approveSuggestion g suggestionId st)) =
      updateFirst (\<lambda>s. sugg_id s = suggestionId)
        (\<lambda>s. s\<lparr>status := approved, createdLabelId := Some lid\<rparr>) (suggestedLabels st)"
    using assms(1) by (simp add: approveSuggestion_def split_beta ok(1))
  have f: "List.find (\<lambda>s. sugg_id s = suggestionId)
           (suggestedLabels (snd (approveSuggestion g suggestionId st))) =
           Some (sg\<lparr>status := approved, createdLabelId := Some lid\<rparr>)"
    unfolding s using assms(1) id by (simp add: find_updateFirst)
  have u: "userSettings (snd (approveSuggestion g suggestionId st)) =
           userSettings (snd (approveFound g sg st))"
    using assms(1) by (simp add: approveSuggestion_def split_beta)
  have y: "syncUserSettings (snd (approveSuggestion g suggestionId st)) =
           syncUserSettings (snd (approveFound g sg st))"
    using assms(1) by (simp add: approveSuggestion_def split_beta)
  have p: "map_option rules (syncUserSettings (snd (approveSuggestion g suggestionId st))) =
           Some (rules (userSettings (snd (approveSuggestion g suggestionId st))))"
    unfolding y u ok(3) by simp
  from r f p show ?thesis unfolding u ok(2) by simp
qed

theorem approve_appends_sender_rule_witness:
  "status (exampleSuggestion pending) = pending \<and>
   autoCreateLabels (userSettings (exampleState\<lparr>suggestedLabels := [exampleSuggestion pending]\<rparr>)) \<and>
   fst (approveSuggestion (workingGmail exampleMessage) ''sugg_1700000000000''
          (exampleState\<lparr>suggestedLabels := [exampleSuggestion pending]\<rparr>)) =
     SuccessSuggestion ((exampleSuggestion pending)
        \<lparr>status := approved, createdLabelId := Some ''Label_new''\<rparr>) \<and>
   rules (userSettings (snd (approveSuggestion (workingGmail exampleMessage)
          ''sugg_1700000000000''
          (exampleState\<lparr>suggestedLabels := [exampleSuggestion pending]\<rparr>)))) =
     [\<lparr>rule_type = ''sender'', rule_value = ''@billing.example.com'',
       labelId = Some ''Label_new'', labelName = ''Finance - billing.example.com''\<rparr>] \<and>
   map_option rules (syncUserSettings (snd (approveSuggestion (workingGmail exampleMessage)
          ''sugg_1700000000000''
          (exampleState\<lparr>suggestedLabels := [exampleSuggestion pending]\<rparr>)))) =
     Some [\<lparr>rule_type = ''sender'', rule_value = ''@billing.example.com'',
       labelId = Some ''Label_new'', labelName = ''Finance - billing.example.com''\<rparr>]"
proof -
  let ?st = "exampleState\<lparr>suggestedLabels := [exampleSuggestion pending]\<rparr>"
  let ?g = "workingGmail exampleMessage"
  have found: "List.find (\<lambda>s. sugg_id s = ''sugg_1700000000000'') (suggestedLabels ?st) =
      Some (exampleSuggestion pending)"
    by (simp add: exampleSuggestion_def)
  have made: "fst (createLabelIfNeeded ?g (sugg_name (exampleSuggestion pending)) ?st) =
      Some ''Label_new''"
    by (simp add: example_defs exampleSuggestion_def resolver_defs)
  have auto: "autoCreateLabels (userSettings ?st)"
    by (simp add: example_defs)
  have p: "status (exampleSuggestion pending) = pending"
    by (simp add: exampleSuggestion_def)
  have e: "rules (userSettings ?st) = []" "basedOnDomain (exampleSuggestion pending) = ''billing.example.com''"
    "sugg_name (exampleSuggestion pending) = ''Finance - billing.example.com''"
    by (simp_all add: example_defs exampleSuggestion_def)
  from approve_appends_sender_rule [OF found made auto] p auto
  show ?thesis unfolding e by auto
qed

section \<open>Pattern learner: counters and suggestions\<close>


lemma find_name_None:
  "(List.find (\<lambda>s. toLowerCase (sugg_name s) = toLowerCase name) xs = None) \<longleftrightarrow>
   (\<forall>s \<in> set xs. toLowerCase (sugg_name s) \<noteq> toLowerCase name)"
  by (auto simp: find_None_iff)

lemma label_name_exists:
  "list_ex (\<lambda>n. toLowerCase n = toLowerCase name) (map snd ls) \<longleftrightarrow>
   \<not> (\<forall>l \<in> set ls. toLowerCase (snd l) \<noteq> toLowerCase name)"
  by (auto simp: list_ex_iff)


lemma analyzeForPatterns_suggestions:
  assumes "domainMatch (headerValue m ''from'') = Some d"
    and "List.find (\<lambda>i. map_of (gmailLabels st) i \<noteq> Some SPAM_LABEL_NAME) appliedLabelIds = Some lid"
    and "lid \<noteq> []"
  shows "suggestedLabels (analyzeForPatterns g m appliedLabelIds st) =
         (if 3 \<le> (case map_of (domainLabelCounts st) (counterKey d lid) of None \<Rightarrow> 0 | Some c \<Rightarrow> c) + 1 \<and>
             (\<forall>s \<in> set (suggestedLabels st). toLowerCase (sugg_name s) \<noteq>
                toLowerCase (templateString (map_of (gmailLabels st) lid) @ '' - '' @ d)) \<and>
             (\<forall>l \<in> set (gmailLabels st). toLowerCase (snd l) \<noteq>
                toLowerCase (templateString (map_of (gmailLabels st) lid) @ '' - '' @ d))
          then suggestedLabels st @
                [\<lparr>sugg_id = ''sugg_'' @ dateNow g (apiCalls st),
                  sugg_name = templateString (map_of (gmailLabels st) lid) @ '' - '' @ d,
                  basedOnDomain = d, basedOnLabel = map_of (gmailLabels st) lid,
                  basedOnLabelId = lid, status = pending, createdLabelId = None\<rparr>]
          else suggestedLabels st)"
proof -
  from assms(2) have "appliedLabelIds \<noteq> []" by auto
  with assms show ?thesis
    by (simp add: analyzeForPatterns_def Let_def find_name_None label_name_exists
        MIN_EMAILS_FOR_PATTERN_def)
qed





section \<open>Processing cycle: the completion timestamp\<close>






section \<open>At most one active suggestion per name\<close>

lemma distinct_key_filter:
  "distinct (map f xs) \<Longrightarrow> length (filter (\<lambda>x. f x = k \<and> Q x) xs) \<le> 1"
proof (induction xs)
  case Nil
  then show ?case by simp
next
  case (Cons x xs)
  show ?case
  proof (cases "f x = k")
    case True
    with Cons.prems have "\<forall>y \<in> set xs. f y \<noteq> k" by (auto simp: image_iff)
    then have "filter (\<lambda>x. f x = k \<and> Q x) xs = []" by (auto simp: filter_empty_conv)
    then show ?thesis by simp
  next
    case False
    with Cons show ?thesis by simp
  qed
qed

lemma updateFirst_names:
  "(\<And>x. sugg_name (f x) = sugg_name x) \<Longrightarrow>
   map (\<lambda>s. toLowerCase (sugg_name s)) (updateFirst P f xs) =
   map (\<lambda>s. toLowerCase (sugg_name s)) xs"
  by (induction xs) auto

lemma approveFound_name: "sugg_name (fst (approveFound g sg st) x) = sugg_name x"
  using approveFound_cases [of g sg st] by auto

lemma approveFound_suggestions:
  "suggestedLabels (snd (approveFound g sg st)) = suggestedLabels st"
  by (simp add: approveFound_def split_beta saveSettings_def createLabelIfNeeded_frame)

lemma namesDistinct_analyze:
  "namesDistinct st \<Longrightarrow> namesDistinct (analyzeForPatterns g m ids st)"
  by (auto simp: namesDistinct_def analyzeForPatterns_def Let_def find_name_None
      split: option.splits)

lemma namesDistinct_approve:
  "namesDistinct st \<Longrightarrow> namesDistinct (snd (approveSuggestion g sid st))"
  by (simp add: namesDistinct_def approveSuggestion_def Let_def split_beta
      updateFirst_names approveFound_name split: option.splits)

lemma namesDistinct_reject:
  "namesDistinct st \<Longrightarrow> namesDistinct (snd (rejectSuggestion sid st))"
  by (simp add: namesDistinct_def rejectSuggestion_def Let_def updateFirst_names
      split: option.splits)

lemma namesDistinct_button:
  "namesDistinct st \<Longrightarrow> namesDistinct (onButtonClicked g nid b st)"
  by (simp add: namesDistinct_def onButtonClicked_def Let_def split_beta
      updateFirst_names approveFound_name split: option.splits)

lemma resolveTarget_suggestions:
  "suggestedLabels (snd (resolveTarget g r st)) = suggestedLabels st"
  by (simp add: resolveTarget_def createLabelIfNeeded_frame)

lemma rulesLoop_suggestions:
  "suggestedLabels (snd (snd (rulesLoop g mid m rs st))) = suggestedLabels st"
  by (induction rs arbitrary: st)
     (simp_all add: rulesLoop.simps Let_def split_beta resolveTarget_suggestions)

lemma processEmail_not_spam:
  assumes "messageResponse g (apiCalls st) mid = Data fm"
    and "\<not> isSpam (userSettings st) fm"
  shows "processEmail g mid st =
     (let r = rulesLoop g mid fm (rules (userSettings st)) (st\<lparr>apiCalls := Suc (apiCalls st)\<rparr>);
          st3 = (if fst r \<noteq> []
                 then applyLabelsToMessage mid (fst r) [''UNREAD''] (snd (snd r))
                 else snd (snd r))
      in if fst (snd r) \<and> enablePatternDetection (userSettings st3)
         then analyzeForPatterns g fm (fst r) st3
         else st3)"
  using assms by (simp add: processEmail_def Let_def split_beta)

lemma namesDistinct_same:
  "suggestedLabels st' = suggestedLabels st \<Longrightarrow> namesDistinct st \<Longrightarrow> namesDistinct st'"
  by (simp add: namesDistinct_def)

lemma applyLabelsToMessage_suggestions:
  "suggestedLabels (applyLabelsToMessage mid add rem st) = suggestedLabels st"
  by (simp add: applyLabelsToMessage_def)

lemma namesDistinct_email:
  assumes d: "namesDistinct st"
  shows "namesDistinct (processEmail g mid st)"
proof (cases "messageResponse g (apiCalls st) mid")
  case Throws
  then have "suggestedLabels (processEmail g mid st) = suggestedLabels st"
    by (simp add: processEmail_def)
  then show ?thesis using d by (rule namesDistinct_same)
next
  case Null
  then have "suggestedLabels (processEmail g mid st) = suggestedLabels st"
    by (simp add: processEmail_def)
  then show ?thesis using d by (rule namesDistinct_same)
next
  case (Data fm)
  show ?thesis
  proof (cases "isSpam (userSettings st) fm")
    case True
    have "suggestedLabels (spamOutcome g mid st) = suggestedLabels st"
      by (simp add: spamOutcome_def Let_def applyLabelsToMessage_suggestions
          createLabelIfNeeded_frame split: option.splits)
    then have "suggestedLabels (processEmail g mid st) = suggestedLabels st"
      by (simp only: processEmail_spam [OF Data True])
    then show ?thesis using d by (rule namesDistinct_same)
  next
    case False
    define r where "r = rulesLoop g mid fm (rules (userSettings st)) (st\<lparr>apiCalls := Suc (apiCalls st)\<rparr>)"
    define st3 where "st3 = (if fst r \<noteq> []
                 then applyLabelsToMessage mid (fst r) [''UNREAD''] (snd (snd r))
                 else snd (snd r))"
    have "suggestedLabels (snd (snd r)) = suggestedLabels st"
      unfolding r_def by (simp add: rulesLoop_suggestions)
    then have "suggestedLabels st3 = suggestedLabels st"
      unfolding st3_def by (simp add: applyLabelsToMessage_suggestions)
    then have d3: "namesDistinct st3" using d by (rule namesDistinct_same)
    have pe: "processEmail g mid st =
        (if fst (snd r) \<and> enablePatternDetection (userSettings st3)
         then analyzeForPatterns g fm (fst r) st3 else st3)"
      unfolding processEmail_not_spam [OF Data False] r_def st3_def Let_def by (rule refl)
    show ?thesis
    proof (cases "fst (snd r) \<and> enablePatternDetection (userSettings st3)")
      case True
      then have "processEmail g mid st = analyzeForPatterns g fm (fst r) st3"
        unfolding pe by simp
      then show ?thesis using d3 by (simp add: namesDistinct_analyze)
    next
      case False
      then have "processEmail g mid st = st3" by (auto simp: pe)
      then show ?thesis using d3 by simp
    qed
  qed
qed

lemma namesDistinct_fold:
  "namesDistinct st \<Longrightarrow> namesDistinct (fold (processEmail g) ms st)"
  by (induction ms arbitrary: st) (simp_all add: namesDistinct_email)

lemma namesDistinct_cycle:
  assumes "namesDistinct st"
  shows "namesDistinct (processUnreadEmails g st)"
proof -
  let ?st1 = "getLabels g (loadSettings st)"
  let ?st2 = "?st1\<lparr>apiCalls := Suc (apiCalls ?st1)\<rparr>"
  have "suggestedLabels ?st2 = suggestedLabels st"
    by (simp add: getLabels_frame loadSettings_def Let_def)
  with assms have d: "namesDistinct ?st2" by (simp add: namesDistinct_def)
  have r: "\<And>s. namesDistinct (recordTimestamp g s) = namesDistinct s"
    by (simp add: namesDistinct_def recordTimestamp_def)
  show ?thesis
    using d namesDistinct_fold [OF d, of g]
    by (cases "unreadResponse g (apiCalls ?st1)")
       (simp_all add: processUnreadEmails_def Let_def r)
qed

lemma reachable_namesDistinct: "reachable st \<Longrightarrow> namesDistinct st"
proof (induction rule: reachable.induct)
  case (init st)
  then show ?case by (simp add: namesDistinct_def)
next
  case (learn st g m appliedLabelIds)
  then show ?case by (simp add: namesDistinct_analyze)
next
  case (approve st g suggestionId)
  then show ?case by (simp add: namesDistinct_approve)
next
  case (reject st suggestionId)
  then show ?case by (simp add: namesDistinct_reject)
next
  case (button st g notificationId buttonIndex)
  then show ?case by (simp add: namesDistinct_button)
next
  case (email st g messageId)
  then show ?case by (simp add: namesDistinct_email)
next
  case (cycle st g)
  then show ?case by (simp add: namesDistinct_cycle)
qed

text \<open>
  C9. In every state reached from an empty suggestion store by the operations on the
  store, run one after the other, at most one suggestion of any given name (compared
  without case) is pending or approved.
\<close>

theorem reachable_one_active_per_name:
  "reachable st \<Longrightarrow> length (activeWithName n (suggestedLabels st)) \<le> 1"
proof -
  assume "reachable st"
  then have "distinct (map (\<lambda>s. toLowerCase (sugg_name s)) (suggestedLabels st))"
    using reachable_namesDistinct by (simp add: namesDistinct_def)
  then show ?thesis
    unfolding activeWithName_def by (rule distinct_key_filter)
qed


theorem reachable_one_active_per_name_witness:
  "reachable
     (analyzeForPatterns (workingGmail exampleMessage) exampleMessage [''Label_1'']
        (exampleState\<lparr>gmailLabels := [(''Label_1'', ''Finance'')],
           domainLabelCounts := [(''billing.example.com:::Label_1'', 2)]\<rparr>)) \<and>
   suggestedLabels
     (analyzeForPatterns (workingGmail exampleMessage) exampleMessage [''Label_1'']
        (exampleState\<lparr>gmailLabels := [(''Label_1'', ''Finance'')],
           domainLabelCounts := [(''billing.example.com:::Label_1'', 2)]\<rparr>)) \<noteq> [] \<and>
   length (activeWithName ''FINANCE - Billing.Example.com''
     (suggestedLabels
       (analyzeForPatterns (workingGmail exampleMessage) exampleMessage [''Label_1'']
          (exampleState\<lparr>gmailLabels := [(''Label_1'', ''Finance'')],
             domainLabelCounts := [(''billing.example.com:::Label_1'', 2)]\<rparr>)))) \<le> 1"
proof -
  let ?st = "exampleState\<lparr>gmailLabels := [(''Label_1'', ''Finance'')],
          domainLabelCounts := [(''billing.example.com:::Label_1'', 2)]\<rparr>"
  let ?g = "workingGmail exampleMessage"
  have "suggestedLabels ?st = []" by (simp add: example_defs)
  then have "reachable ?st" by (rule reachable.init)
  then have r: "reachable (analyzeForPatterns ?g exampleMessage [''Label_1''] ?st)"
    by (rule reachable.learn)
  have a: "domainMatch (headerValue exampleMessage ''from'') = Some ''billing.example.com''"
    by (simp add: example_defs isDomainChar_def string_defs)
  have b: "List.find (\<lambda>i. map_of (gmailLabels ?st) i \<noteq> Some SPAM_LABEL_NAME) [''Label_1'']
             = Some ''Label_1''"
    by (simp add: SPAM_LABEL_NAME_def)
  have n: "suggestedLabels (analyzeForPatterns ?g exampleMessage [''Label_1''] ?st) \<noteq> []"
  proof -
    have c: "''Label_1'' \<noteq> []" by simp
    show ?thesis
      unfolding analyzeForPatterns_suggestions [OF a b c, of ?g]
      by (simp add: example_defs counterKey_def toLowerCase_def)
  qed
  from r n reachable_one_active_per_name [OF r, of "''FINANCE - Billing.Example.com''"]
  show ?thesis by blast
qed

end
